theory Spec2Isabelle
  imports Complex_Main "HOL-Library.Multiset"
begin

section \<open>Values decoded from JSON\<close>

text \<open>
  The explorer's reply is decoded by \<^verbatim>\<open>response.json()\<close> into Python values, and
  the fields of a \<^verbatim>\<open>BlockscoutResponse\<close> hold whatever the reply carried: the
  annotations \<^verbatim>\<open>str\<close> and \<^verbatim>\<open>bool\<close> of the dataclass are not enforced. A
  JSON object is a dict in insertion order, kept as an association list. A float is
  carried by its (finite) value.
\<close>

datatype pyval =
    PNone
  | PBool bool
  | PInt int
  | PFloat real
  | PStr string
  | PList "pyval list"
  | PDict "(string \<times> pyval) list"

text \<open>Python's \<^verbatim>\<open>bool(v)\<close>.\<close>

fun truthy :: "pyval \<Rightarrow> bool" where
  "truthy PNone = False"
| "truthy (PBool b) = b"
| "truthy (PInt i) = (i \<noteq> 0)"
| "truthy (PFloat r) = (r \<noteq> 0)"
| "truthy (PStr s) = (s \<noteq> [])"
| "truthy (PList vs) = (vs \<noteq> [])"
| "truthy (PDict kvs) = (kvs \<noteq> [])"

text \<open>
  \<^verbatim>\<open>str.lower()\<close> on the bytes of the string: the letters A to Z go to a to z,
  every other byte stays. No character outside ASCII lowers to a letter of
  \<^verbatim>\<open>proxy\<close> or \<^verbatim>\<open>erc1967\<close>, the only needles the program looks for.
\<close>

definition lower_char :: "char \<Rightarrow> char" where
  "lower_char c =
     (let n = (of_char c :: nat) in if 65 \<le> n \<and> n \<le> 90 then char_of (n + 32) else c)"

definition lower :: "string \<Rightarrow> string" where
  "lower s = map lower_char s"

text \<open>Python's \<^verbatim>\<open>needle in hay\<close> on strings: \<open>needle\<close> starts at some position of \<open>hay\<close>.\<close>

fun starts_with :: "string \<Rightarrow> string \<Rightarrow> bool" where
  "starts_with [] hay = True"
| "starts_with (c # cs) [] = False"
| "starts_with (c # cs) (h # hs) = (c = h \<and> starts_with cs hs)"

fun py_in :: "string \<Rightarrow> string \<Rightarrow> bool" where
  "py_in needle [] = (needle = [])"
| "py_in needle (h # hs) = (starts_with needle (h # hs) \<or> py_in needle hs)"

section \<open>The records of the program\<close>

text \<open>
  \<^verbatim>\<open>Contract\<close>: the loader fills \<open>address\<close>, \<open>origin_key\<close> and \<open>chain_id\<close> with
  strings; the fields the mapper assigns from a reply hold the reply's values.
\<close>

record Contract =
  address :: string
  chain_id :: string
  name :: pyval
  owner_project :: string
  usage_category :: string
  deployment_tx :: string
  deployer_address :: string
  deployment_date :: pyval
  verified_status :: bool
  is_proxy_contract :: bool
  proxy_address :: pyval
  implementation_address :: pyval
  source_repo_url :: pyval
  origin_key :: string

text \<open>
  \<^verbatim>\<open>BlockscoutResponse\<close>. Its fields \<^verbatim>\<open>address\<close> and \<^verbatim>\<open>name\<close> are
  \<open>bs_address\<close> and \<open>bs_name\<close> here, the plain names being those of \<open>Contract\<close>.
\<close>

record BlockscoutResponse =
  bs_address :: pyval
  bs_name :: pyval
  is_verified :: pyval
  is_fully_verified :: pyval
  is_partially_verified :: pyval
  is_verified_via_sourcify :: pyval
  sourcify_repo_url :: pyval
  minimal_proxy_address_hash :: pyval
  compiler_version :: pyval
  evm_version :: pyval
  optimizer :: pyval
  verified_at :: pyval
  additional_fields :: pyval

record ProcessingStats =
  total_contracts :: int
  processed_count :: int
  contracts_with_name :: int
  proxy_contracts :: int
  elapsed_time :: string

text \<open>
  The exceptions the program raises or meets: \<^verbatim>\<open>ValueError\<close> is raised by the client
  on status 404 and \<^verbatim>\<open>Exception\<close> after its last attempt;
  \<^verbatim>\<open>JSONDecodeError\<close> comes from \<^verbatim>\<open>response.json()\<close>, \<^verbatim>\<open>TypeError\<close> from
  \<^verbatim>\<open>**\<close> on a value that is not a dict and from an item assignment on such a value,
  \<^verbatim>\<open>AttributeError\<close> from \<^verbatim>\<open>.lower()\<close> on a value that is not a string,
  \<^verbatim>\<open>RequestException\<close> from \<^verbatim>\<open>requests.get\<close>.
\<close>

datatype exn =
    ValueError
  | JSONDecodeError
  | TypeError
  | AttributeError
  | RequestException
  | Exception

text \<open>\<^verbatim>\<open>except ValueError\<close>: \<^verbatim>\<open>JSONDecodeError\<close> is a subclass of \<^verbatim>\<open>ValueError\<close>.\<close>

fun is_ValueError :: "exn \<Rightarrow> bool" where
  "is_ValueError ValueError = True"
| "is_ValueError JSONDecodeError = True"
| "is_ValueError e = False"

section \<open>The registry\<close>

definition BLOCKSCOUT_APIS :: "(string \<times> string) list" where
  "BLOCKSCOUT_APIS =
    [(''optimism'', ''https://optimism.blockscout.com/api/v2/smart-contracts/''),
     (''polygon_zkevm'', ''https://zkevm.blockscout.com/api/v2/smart-contracts/''),
     (''mode'', ''https://explorer.mode.network/api/v2/smart-contracts/''),
     (''arbitrum'', ''https://arbitrum.blockscout.com//api/v2/smart-contracts/''),
     (''zora'', ''https://explorer.zora.energy/api/v2/smart-contracts/''),
     (''base'', ''https://base.blockscout.com/api/v2/smart-contracts/''),
     (''zksync_era'', ''https://zksync.blockscout.com/api/v2/smart-contracts/''),
     (''linea'', ''https://explorer.linea.build/api/v2/smart-contracts/''),
     (''redstone'', ''https://explorer.redstone.xyz/api/v2/smart-contracts/'')]"

definition CHAIN_ID_MAP :: "(string \<times> string) list" where
  "CHAIN_ID_MAP =
    [(''optimism'', ''eip155-10''),
     (''polygon_zkevm'', ''eip155-1101''),
     (''mode'', ''eip155-34443''),
     (''arbitrum'', ''eip155-42161''),
     (''zora'', ''eip155-7777777''),
     (''base'', ''eip155-8453''),
     (''zksync_era'', ''eip155-324''),
     (''linea'', ''eip155-59144''),
     (''redstone'', ''eip155-17001'')]"

text \<open>\<^verbatim>\<open>d.get(k, default)\<close>.\<close>

definition dict_get :: "(string \<times> 'v) list \<Rightarrow> string \<Rightarrow> 'v \<Rightarrow> 'v" where
  "dict_get d k dflt = (case map_of d k of None \<Rightarrow> dflt | Some v \<Rightarrow> v)"

section \<open>Decoding a reply: \<^verbatim>\<open>BlockscoutResponse(**kwargs)\<close>\<close>

text \<open>The class defaults, with \<^verbatim>\<open>additional_fields = {}\<close> from \<^verbatim>\<open>__post_init__\<close>.\<close>

definition response_defaults :: BlockscoutResponse where
  "response_defaults =
     \<lparr> bs_address = PStr [], bs_name = PStr [],
       is_verified = PBool False, is_fully_verified = PBool False,
       is_partially_verified = PBool False, is_verified_via_sourcify = PBool False,
       sourcify_repo_url = PStr [], minimal_proxy_address_hash = PStr [],
       compiler_version = PStr [], evm_version = PStr [], optimizer = PStr [],
       verified_at = PStr [], additional_fields = PDict [] \<rparr>"

text \<open>
  One turn of the loop over \<^verbatim>\<open>kwargs.items()\<close>: a key that names a field is set
  on the object (\<^verbatim>\<open>additional_fields\<close> is such a field); any other key is stored
  in \<^verbatim>\<open>self.additional_fields[key]\<close>, which raises when an earlier key has put
  something other than a dict there.
\<close>

fun dict_set :: "string \<Rightarrow> 'v \<Rightarrow> (string \<times> 'v) list \<Rightarrow> (string \<times> 'v) list" where
  "dict_set k v [] = [(k, v)]"
| "dict_set k v ((k', v') # kvs) =
     (if k' = k then (k, v) # kvs else (k', v') # dict_set k v kvs)"

definition init_item :: "string \<Rightarrow> pyval \<Rightarrow> BlockscoutResponse \<Rightarrow> exn + BlockscoutResponse" where
  "init_item k v r =
     (if k = ''address'' then Inr (r\<lparr>bs_address := v\<rparr>)
      else if k = ''name'' then Inr (r\<lparr>bs_name := v\<rparr>)
      else if k = ''is_verified'' then Inr (r\<lparr>is_verified := v\<rparr>)
      else if k = ''is_fully_verified'' then Inr (r\<lparr>is_fully_verified := v\<rparr>)
      else if k = ''is_partially_verified'' then Inr (r\<lparr>is_partially_verified := v\<rparr>)
      else if k = ''is_verified_via_sourcify'' then Inr (r\<lparr>is_verified_via_sourcify := v\<rparr>)
      else if k = ''sourcify_repo_url'' then Inr (r\<lparr>sourcify_repo_url := v\<rparr>)
      else if k = ''minimal_proxy_address_hash'' then Inr (r\<lparr>minimal_proxy_address_hash := v\<rparr>)
      else if k = ''compiler_version'' then Inr (r\<lparr>compiler_version := v\<rparr>)
      else if k = ''evm_version'' then Inr (r\<lparr>evm_version := v\<rparr>)
      else if k = ''optimizer'' then Inr (r\<lparr>optimizer := v\<rparr>)
      else if k = ''verified_at'' then Inr (r\<lparr>verified_at := v\<rparr>)
      else if k = ''additional_fields'' then Inr (r\<lparr>additional_fields := v\<rparr>)
      else (case additional_fields r of
              PDict kvs \<Rightarrow> Inr (r\<lparr>additional_fields := PDict (dict_set k v kvs)\<rparr>)
            | _ \<Rightarrow> Inl TypeError))"

fun init_items :: "(string \<times> pyval) list \<Rightarrow> BlockscoutResponse \<Rightarrow> exn + BlockscoutResponse" where
  "init_items [] r = Inr r"
| "init_items ((k, v) # kvs) r =
     (case init_item k v r of Inl e \<Rightarrow> Inl e | Inr r' \<Rightarrow> init_items kvs r')"

text \<open>
  The call \<^verbatim>\<open>BlockscoutResponse(**kwargs)\<close> binds the keys of the reply as keyword
  arguments of \<^verbatim>\<open>__init__(self, **kwargs)\<close>: a key \<^verbatim>\<open>self\<close> collides with the
  parameter of that name, and the call raises \<^verbatim>\<open>TypeError\<close> before the body runs.
  Any other key reaches the loop.
\<close>

definition BlockscoutResponse_init :: "(string \<times> pyval) list \<Rightarrow> exn + BlockscoutResponse" where
  "BlockscoutResponse_init kwargs =
     (if ''self'' \<in> set (map fst kwargs) then Inl TypeError
      else init_items kwargs response_defaults)"

section \<open>The mapper\<close>

text \<open>
  \<^verbatim>\<open>map_blockscout_to_open_labels\<close> assigns to the fields of the contract it is given,
  one after the other, and returns that object. The model returns the contract as the
  call leaves it and the exception that ended the call, if one did:
  \<^verbatim>\<open>contract.name.lower()\<close> raises \<^verbatim>\<open>AttributeError\<close> when the name just assigned
  is not a string, after the six assignments before it.
\<close>

definition map_blockscout_to_open_labels ::
    "Contract \<Rightarrow> BlockscoutResponse \<Rightarrow> Contract \<times> exn option" where
  "map_blockscout_to_open_labels contract blockscout_data =
     (let c1 = contract\<lparr>
            name := bs_name blockscout_data,
            verified_status :=
              (truthy (is_verified blockscout_data) \<or>
               truthy (is_fully_verified blockscout_data) \<or>
               truthy (is_partially_verified blockscout_data) \<or>
               truthy (is_verified_via_sourcify blockscout_data)),
            source_repo_url := sourcify_repo_url blockscout_data,
            is_proxy_contract := truthy (minimal_proxy_address_hash blockscout_data),
            proxy_address := minimal_proxy_address_hash blockscout_data,
            implementation_address := minimal_proxy_address_hash blockscout_data\<rparr>;
          tail = (\<lambda>c2.
            let c3 = c2\<lparr>chain_id := dict_get CHAIN_ID_MAP (origin_key c2) (chain_id c2)\<rparr>
            in if truthy (verified_at blockscout_data)
               then c3\<lparr>deployment_date := verified_at blockscout_data\<rparr>
               else c3)
      in if \<not> is_proxy_contract c1 then
           (case name c1 of
              PStr s \<Rightarrow>
                if py_in ''proxy'' (lower s) \<or> py_in ''erc1967'' (lower s)
                then (tail (c1\<lparr>is_proxy_contract := True\<rparr>), None)
                else (tail c1, None)
            | _ \<Rightarrow> (c1, Some AttributeError))
         else (tail c1, None))"

section \<open>The loader's seed record\<close>

text \<open>
  What \<^verbatim>\<open>process_csv\<close> makes of one row: the address gets the prefix
  \<^verbatim>\<open>0x\<close> when it lacks it, the chain id starts as the origin key, every other
  field has its default.
\<close>

definition process_row :: "string \<Rightarrow> string \<Rightarrow> Contract" where
  "process_row encode origin =
     \<lparr> address = (if starts_with ''0x'' encode then encode else ''0x'' @ encode),
       chain_id = origin, name = PStr [], owner_project = [], usage_category = [],
       deployment_tx = [], deployer_address = [], deployment_date = PStr [],
       verified_status = False, is_proxy_contract = False, proxy_address = PStr [],
       implementation_address = PStr [], source_repo_url = PStr [], origin_key = origin \<rparr>"

section \<open>The explorer client\<close>

text \<open>
  The network is a parameter. \<^verbatim>\<open>requests.get(url)\<close> either raises (no connection)
  or returns a response with a status code and a body; \<^verbatim>\<open>response.json()\<close> either
  raises or returns the decoded value. \<open>get i\<close> is what the \<open>i\<close>-th request of one
  call of \<^verbatim>\<open>fetch_blockscout_data\<close> meets, counted from 0.
\<close>

datatype body = BadJson | Json pyval

datatype http_result = ConnectionFailed | Response int body

text \<open>What a call does to the world, in order: requests, sleeps and printed reports.\<close>

datatype message =
    Unknown_origin_key string string
  | Contract_not_found string string
  | Error_processing string exn

datatype event = HttpGet string | Sleep nat | Print message

definition max_retries :: nat where
  "max_retries = 3"

definition retry_delay :: nat where
  "retry_delay = 1"

text \<open>
  \<^verbatim>\<open>BlockscoutResponse(**response.json())\<close>: the body must decode, and to a dict.
\<close>

fun decode :: "body \<Rightarrow> exn + BlockscoutResponse" where
  "decode BadJson = Inl JSONDecodeError"
| "decode (Json (PDict kwargs)) = BlockscoutResponse_init kwargs"
| "decode (Json v) = Inl TypeError"

text \<open>
  The loop \<^verbatim>\<open>for _ in range(max_retries)\<close> over the attempts still to make. Status
  200 returns, status 404 raises \<^verbatim>\<open>ValueError("Contract not found")\<close>, an exception
  of \<^verbatim>\<open>requests.get\<close> or of the decoding leaves the function, any other status
  sleeps and goes on; after the last attempt the function raises \<^verbatim>\<open>Exception\<close>.
\<close>

fun fetch_loop ::
    "(nat \<Rightarrow> http_result) \<Rightarrow> string \<Rightarrow> nat list \<Rightarrow> (exn + BlockscoutResponse) \<times> event list" where
  "fetch_loop get url [] = (Inl Exception, [])"
| "fetch_loop get url (i # rest) =
     (case get i of
        ConnectionFailed \<Rightarrow> (Inl RequestException, [HttpGet url])
      | Response status_code b \<Rightarrow>
          if status_code = 200 then (decode b, [HttpGet url])
          else if status_code = 404 then (Inl ValueError, [HttpGet url])
          else (case fetch_loop get url rest of
                  (res, evs) \<Rightarrow> (res, HttpGet url # Sleep retry_delay # evs)))"

definition fetch_blockscout_data ::
    "(string \<Rightarrow> nat \<Rightarrow> http_result) \<Rightarrow> string \<Rightarrow> string \<Rightarrow> (exn + BlockscoutResponse) \<times> event list" where
  "fetch_blockscout_data net api_url addr =
     (let url = api_url @ addr in fetch_loop (net url) url [0..<max_retries])"

text \<open>A reply that makes the loop go on: a response whose status is neither 200 nor 404.\<close>

fun transient :: "http_result \<Rightarrow> bool" where
  "transient ConnectionFailed = False"
| "transient (Response status_code b) = (status_code \<noteq> 200 \<and> status_code \<noteq> 404)"

section \<open>One unit of work\<close>

text \<open>
  \<^verbatim>\<open>process_contract\<close> returns the contract object it was given, as the call leaves
  it, with the events of the call. Both handlers print and fall through to
  \<^verbatim>\<open>return contract\<close>.
\<close>

definition handler :: "Contract \<Rightarrow> exn \<Rightarrow> event" where
  "handler contract e =
     (if is_ValueError e
      then Print (Contract_not_found (address contract) (origin_key contract))
      else Print (Error_processing (address contract) e))"

definition process_contract ::
    "(string \<Rightarrow> nat \<Rightarrow> http_result) \<Rightarrow> Contract \<Rightarrow> Contract \<times> event list" where
  "process_contract net contract =
     (case map_of BLOCKSCOUT_APIS (origin_key contract) of
        None \<Rightarrow>
          (contract, [Print (Unknown_origin_key (address contract) (origin_key contract))])
      | Some api_url \<Rightarrow>
          if api_url = [] then
            (contract, [Print (Unknown_origin_key (address contract) (origin_key contract))])
          else
            (case fetch_blockscout_data net api_url (address contract) of
               (Inl e, evs) \<Rightarrow> (contract, evs @ [handler contract e])
             | (Inr blockscout_data, evs) \<Rightarrow>
                 (case map_blockscout_to_open_labels contract blockscout_data of
                    (contract', None) \<Rightarrow> (contract', evs)
                  | (contract', Some e) \<Rightarrow> (contract', evs @ [handler contract' e]))))"

section \<open>The batch\<close>

text \<open>Python's \<^verbatim>\<open>xs[:stop]\<close>: a negative \<open>stop\<close> counts from the end.\<close>

definition slice_to :: "'a list \<Rightarrow> int \<Rightarrow> 'a list" where
  "slice_to xs stop =
     (if stop < 0 then take (nat (int (length xs) + stop)) xs else take (nat stop) xs)"

text \<open>Python's \<^verbatim>\<open>a or b\<close> on integers.\<close>

definition py_or :: "int \<Rightarrow> int \<Rightarrow> int" where
  "py_or a b = (if a \<noteq> 0 then a else b)"

text \<open>
  \<^verbatim>\<open>as_completed\<close> yields the futures in the order in which they finish, which
  the program does not control. The order is a parameter: at its \<open>k\<close>-th turn the
  scheduler \<open>sched\<close> picks one of the futures still pending.
\<close>

function as_completed :: "(nat \<Rightarrow> nat) \<Rightarrow> nat \<Rightarrow> 'a list \<Rightarrow> 'a list" where
  "as_completed sched k pending =
     (if pending = [] then []
      else (let j = sched k mod length pending
            in pending ! j # as_completed sched (Suc k) (take j pending @ drop (Suc j) pending)))"
  by pat_completeness auto
termination
proof (relation "measure (\<lambda>(sched, k, pending). length pending)")
  show "wf (measure (\<lambda>(sched :: nat \<Rightarrow> nat, k :: nat, pending :: 'a list). length pending))"
    by simp
next
  fix sched :: "nat \<Rightarrow> nat" and k :: nat and pending :: "'a list" and j :: nat
  assume "pending \<noteq> []" and "j = sched k mod length pending"
  then have "j < length pending"
    by simp
  then show "((sched, Suc k, take j pending @ drop (Suc j) pending), (sched, k, pending))
      \<in> measure (\<lambda>(sched, k, pending). length pending)"
    by simp
qed

text \<open>
  The body of the loop over the completed futures: append the contract and update the
  counters. \<open>now\<close> is the text \<^verbatim>\<open>f"{time.time() - start_time:.2f} seconds"\<close>.
\<close>

definition collect_step ::
    "string \<Rightarrow> Contract \<Rightarrow> Contract list \<times> ProcessingStats \<Rightarrow> Contract list \<times> ProcessingStats" where
  "collect_step now contract st =
     (case st of (processed_contracts, stats) \<Rightarrow>
        (let s1 = stats\<lparr>processed_count := processed_count stats + 1\<rparr>;
             s2 = (if truthy (name contract)
                   then s1\<lparr>contracts_with_name := contracts_with_name s1 + 1\<rparr> else s1);
             s3 = (if is_proxy_contract contract
                   then s2\<lparr>proxy_contracts := proxy_contracts s2 + 1\<rparr> else s2)
         in (processed_contracts @ [contract], s3\<lparr>elapsed_time := now\<rparr>)))"

fun collect ::
    "(nat \<Rightarrow> string) \<Rightarrow> nat \<Rightarrow> Contract list \<Rightarrow> Contract list \<times> ProcessingStats
      \<Rightarrow> Contract list \<times> ProcessingStats" where
  "collect clock k [] st = st"
| "collect clock k (contract # rest) st = collect clock (Suc k) rest (collect_step (clock k) contract st)"

text \<open>
  \<^verbatim>\<open>process_contracts\<close>. The futures are numbered in the order of submission;
  future \<open>i\<close> runs \<^verbatim>\<open>process_contract\<close> on the \<open>i\<close>-th submitted contract against
  its own view \<open>net i\<close> of the network. The contracts of the input are distinct
  objects (the loader makes one per row), so no future touches the contract of another.
  The loop over the completed futures runs in the calling thread. The futures handed
  to \<open>as_completed\<close> are the positions of the submitted list and it yields each of
  them once, so \<open>subm ! i\<close> is always read in range.
\<close>

definition initial_stats :: "Contract list \<Rightarrow> ProcessingStats" where
  "initial_stats contracts =
     \<lparr> total_contracts = int (length contracts), processed_count = 0,
       contracts_with_name = 0, proxy_contracts = 0, elapsed_time = [] \<rparr>"

definition submitted :: "Contract list \<Rightarrow> int \<Rightarrow> Contract list" where
  "submitted contracts max_queries =
     slice_to contracts (py_or max_queries (int (length contracts)))"

definition future_result ::
    "(nat \<Rightarrow> string \<Rightarrow> nat \<Rightarrow> http_result) \<Rightarrow> Contract list \<Rightarrow> nat \<Rightarrow> Contract" where
  "future_result net subm i = fst (process_contract (net i) (subm ! i))"

definition completed ::
    "(nat \<Rightarrow> string \<Rightarrow> nat \<Rightarrow> http_result) \<Rightarrow> (nat \<Rightarrow> nat) \<Rightarrow> Contract list \<Rightarrow> int \<Rightarrow> Contract list" where
  "completed net sched contracts max_queries =
     (let subm = submitted contracts max_queries
      in map (future_result net subm) (as_completed sched 0 [0..<length subm]))"

definition process_contracts ::
    "(nat \<Rightarrow> string \<Rightarrow> nat \<Rightarrow> http_result) \<Rightarrow> (nat \<Rightarrow> nat) \<Rightarrow> (nat \<Rightarrow> string)
      \<Rightarrow> Contract list \<Rightarrow> int \<Rightarrow> Contract list \<times> ProcessingStats" where
  "process_contracts net sched clock contracts max_queries =
     collect clock 0 (completed net sched contracts max_queries) ([], initial_stats contracts)"

text \<open>The statistics after the first \<open>j\<close> turns of the loop over the completed futures.\<close>

definition stats_after ::
    "(nat \<Rightarrow> string \<Rightarrow> nat \<Rightarrow> http_result) \<Rightarrow> (nat \<Rightarrow> nat) \<Rightarrow> (nat \<Rightarrow> string)
      \<Rightarrow> Contract list \<Rightarrow> int \<Rightarrow> nat \<Rightarrow> ProcessingStats" where
  "stats_after net sched clock contracts max_queries j =
     snd (collect clock 0 (take j (completed net sched contracts max_queries))
       ([], initial_stats contracts))"

section \<open>Facts about strings\<close>

lemma starts_with_iff: "starts_with n h \<longleftrightarrow> (\<exists>s. h = n @ s)"
  by (induction n h rule: starts_with.induct) auto

text \<open>\<open>py_in\<close> is the substring test.\<close>

lemma py_in_iff: "py_in n h \<longleftrightarrow> (\<exists>p s. h = p @ n @ s)"
proof (induction h)
  case Nil
  then show ?case by auto
next
  case (Cons a h)
  show ?case
  proof
    assume "py_in n (a # h)"
    then consider "starts_with n (a # h)" | "py_in n h" by auto
    then show "\<exists>p s. a # h = p @ n @ s"
    proof cases
      case 1
      then obtain s where "a # h = n @ s" by (auto simp: starts_with_iff)
      then have "a # h = [] @ n @ s" by simp
      then show ?thesis by blast
    next
      case 2
      then obtain p s where "h = p @ n @ s" using Cons.IH by auto
      then have "a # h = (a # p) @ n @ s" by simp
      then show ?thesis by blast
    qed
  next
    assume "\<exists>p s. a # h = p @ n @ s"
    then obtain p s where e: "a # h = p @ n @ s" by auto
    show "py_in n (a # h)"
    proof (cases p)
      case Nil
      then have "starts_with n (a # h)" using e by (auto simp: starts_with_iff)
      then show ?thesis by simp
    next
      case (Cons b p')
      then have "h = p' @ n @ s" using e by simp
      then have "py_in n h" using Cons.IH by blast
      then show ?thesis by simp
    qed
  qed
qed

lemma lower_examples:
  "lower ''MyERC1967Proxy'' = ''myerc1967proxy''"
  "lower ''ERC1967Proxy'' = ''erc1967proxy''"
  "lower ''Token'' = ''token''"
  by code_simp+

section \<open>Facts about the scheduler and the collecting loop\<close>

declare as_completed.simps [simp del]

lemma as_completed_Nil: "as_completed sched k [] = []"
  by (simp add: as_completed.simps)

lemma as_completed_step:
  assumes "pending \<noteq> []" and "j = sched k mod length pending"
  shows "as_completed sched k pending =
    pending ! j # as_completed sched (Suc k) (take j pending @ drop (Suc j) pending)"
  using assms by (subst as_completed.simps) (simp add: Let_def)

lemma remove_nth_mset:
  assumes "j < length xs"
  shows "add_mset (xs ! j) (mset (take j xs) + mset (drop (Suc j) xs)) = mset xs"
proof -
  have "xs = take j xs @ xs ! j # drop (Suc j) xs"
    using assms by (rule id_take_nth_drop)
  then have "mset xs = mset (take j xs @ xs ! j # drop (Suc j) xs)"
    by simp
  then show ?thesis
    by simp
qed

text \<open>Whatever the scheduler does, every pending future is yielded exactly once.\<close>

lemma mset_as_completed: "mset (as_completed sched k xs) = mset xs"
proof (induction sched k xs rule: as_completed.induct)
  case (1 sched k pending)
  show ?case
  proof (cases "pending = []")
    case True
    then show ?thesis by (simp add: as_completed_Nil)
  next
    case False
    define j where "j = sched k mod length pending"
    have j: "j < length pending"
      using False by (simp add: j_def)
    have "mset (as_completed sched (Suc k) (take j pending @ drop (Suc j) pending)) =
        mset (take j pending @ drop (Suc j) pending)"
      using "1.IH" [OF False j_def] .
    moreover have "as_completed sched k pending =
        pending ! j # as_completed sched (Suc k) (take j pending @ drop (Suc j) pending)"
      using False j_def by (rule as_completed_step)
    ultimately show ?thesis
      using remove_nth_mset [OF j] by simp
  qed
qed

lemma length_as_completed: "length (as_completed sched k xs) = length xs"
  using mset_as_completed [of sched k xs] by (metis size_mset)

text \<open>Only the scheduler's turns from \<open>k\<close> on matter.\<close>

lemma as_completed_cong:
  "(\<forall>i\<ge>k. s i = s' i) \<Longrightarrow> as_completed s k xs = as_completed s' k xs"
proof (induction s k xs rule: as_completed.induct)
  case (1 sched k pending)
  show ?case
  proof (cases "pending = []")
    case True
    then show ?thesis by (simp add: as_completed_Nil)
  next
    case False
    define j where "j = sched k mod length pending"
    have j': "j = s' k mod length pending"
      using "1.prems" by (simp add: j_def)
    have "\<forall>i\<ge>Suc k. sched i = s' i"
      using "1.prems" by simp
    then have "as_completed sched (Suc k) (take j pending @ drop (Suc j) pending) =
        as_completed s' (Suc k) (take j pending @ drop (Suc j) pending)"
      using "1.IH" [OF False j_def] by simp
    moreover have "as_completed sched k pending =
        pending ! j # as_completed sched (Suc k) (take j pending @ drop (Suc j) pending)"
      using False j_def by (rule as_completed_step)
    moreover have "as_completed s' k pending =
        pending ! j # as_completed s' (Suc k) (take j pending @ drop (Suc j) pending)"
      using False j' by (rule as_completed_step)
    ultimately show ?thesis
      by simp
  qed
qed

text \<open>
  The model leaves no completion order out: every arrangement of the pending futures
  is the choice of some scheduler.
\<close>

lemma every_order_reachable:
  "mset ys = mset xs \<Longrightarrow> \<exists>sched. as_completed sched k xs = ys"
proof (induction ys arbitrary: xs k)
  case Nil
  then show ?case by (simp add: as_completed_Nil)
next
  case (Cons y ys)
  have "y \<in> set xs"
    using Cons.prems by (metis list.set_intros(1) set_mset_mset)
  then obtain j where j: "j < length xs" "xs ! j = y"
    by (auto simp: in_set_conv_nth)
  define rest where "rest = take j xs @ drop (Suc j) xs"
  have "add_mset y (mset rest) = mset xs"
    using remove_nth_mset [OF j(1)] j(2) by (simp add: rest_def)
  then have "add_mset y (mset ys) = add_mset y (mset rest)"
    using Cons.prems by simp
  then have "mset ys = mset rest"
    by simp
  then obtain sched' where s': "as_completed sched' (Suc k) rest = ys"
    using Cons.IH by blast
  define sched where "sched = sched'(k := j)"
  have ne: "xs \<noteq> []"
    using j(1) by auto
  have pick: "j = sched k mod length xs"
    using j(1) by (simp add: sched_def)
  have "\<forall>i\<ge>Suc k. sched i = sched' i"
    by (simp add: sched_def)
  then have "as_completed sched (Suc k) rest = ys"
    using as_completed_cong [of "Suc k" sched sched' rest] s' by simp
  moreover have "as_completed sched k xs = xs ! j # as_completed sched (Suc k) rest"
    unfolding rest_def using ne pick by (rule as_completed_step)
  ultimately have "as_completed sched k xs = y # ys"
    using j(2) by simp
  then show ?case
    by blast
qed

lemma fst_collect: "fst (collect clock k cs st) = fst st @ cs"
  by (induction cs arbitrary: k st) (auto simp: collect_step_def Let_def split: prod.splits)

lemma processed_collect:
  "processed_count (snd (collect clock k cs st)) = processed_count (snd st) + int (length cs)"
  by (induction cs arbitrary: k st) (auto simp: collect_step_def Let_def split: prod.splits)

lemma total_collect:
  "total_contracts (snd (collect clock k cs st)) = total_contracts (snd st)"
  by (induction cs arbitrary: k st) (auto simp: collect_step_def Let_def split: prod.splits)

lemma named_collect:
  "contracts_with_name (snd (collect clock k cs st)) =
     contracts_with_name (snd st) + int (length (filter (\<lambda>c. truthy (name c)) cs))"
  by (induction cs arbitrary: k st) (auto simp: collect_step_def Let_def split: prod.splits)

lemma proxy_collect:
  "proxy_contracts (snd (collect clock k cs st)) =
     proxy_contracts (snd st) + int (length (filter is_proxy_contract cs))"
  by (induction cs arbitrary: k st) (auto simp: collect_step_def Let_def split: prod.splits)

lemma filter_take_mono:
  assumes "j \<le> k"
  shows "length (filter P (take j xs)) \<le> length (filter P (take k xs))"
proof -
  have "take k xs = take j xs @ take (k - j) (drop j xs)"
    using assms take_add [of j "k - j" xs] by simp
  then show ?thesis
    by simp
qed

lemma length_completed: "length (completed net sched cs m) = length (submitted cs m)"
  by (simp add: completed_def Let_def length_as_completed)

lemma length_submitted_nonneg:
  "0 \<le> m \<Longrightarrow> int (length (submitted cs m)) = min (py_or m (int (length cs))) (int (length cs))"
  by (auto simp: submitted_def slice_to_def py_or_def)

lemma submitted_nonneg:
  "0 \<le> m \<Longrightarrow> submitted cs m = (if m = 0 then cs else take (nat m) cs)"
  by (auto simp: submitted_def slice_to_def py_or_def)

lemma future_in_output:
  assumes "i < length (submitted cs m)"
  shows "future_result net (submitted cs m) i \<in> set (fst (process_contracts net sched clock cs m))"
proof -
  have "i \<in> set [0..<length (submitted cs m)]"
    using assms by simp
  then have "i \<in># mset (as_completed sched 0 [0..<length (submitted cs m)])"
    by (simp add: mset_as_completed)
  then have "i \<in> set (as_completed sched 0 [0..<length (submitted cs m)])"
    by simp
  then show ?thesis
    by (simp add: process_contracts_def fst_collect completed_def Let_def)
qed

section \<open>Facts about decoding\<close>




text \<open>A reply that holds the key \<^verbatim>\<open>self\<close> cannot be decoded.\<close>

lemma init_self_key:
  "''self'' \<in> set (map fst kwargs) \<Longrightarrow> BlockscoutResponse_init kwargs = Inl TypeError"
  by (simp add: BlockscoutResponse_init_def)

text \<open>\<open>dict_set\<close> is the assignment \<^verbatim>\<open>d[k] = v\<close>: the key gets the value, no other key changes.\<close>

lemma map_of_dict_set: "map_of (dict_set k v kvs) = (map_of kvs)(k \<mapsto> v)"
  by (induction kvs) auto

lemma keys_dict_set:
  "map fst (dict_set k v kvs) = (if k \<in> set (map fst kvs) then map fst kvs else map fst kvs @ [k])"
  by (induction kvs) force+

text \<open>Keys that name no field are gathered in \<^verbatim>\<open>additional_fields\<close>, the last value kept.\<close>

lemma unknown_keys_example:
  "BlockscoutResponse_init
     [(''abi'', PList []), (''name'', PStr ''Token''), (''language'', PStr ''solidity''),
      (''abi'', PNone)] =
   Inr (response_defaults\<lparr>bs_name := PStr ''Token'',
     additional_fields := PDict [(''abi'', PNone), (''language'', PStr ''solidity'')]\<rparr>)"
  by (simp add: BlockscoutResponse_init_def init_item_def response_defaults_def)

text \<open>A key touches no field but its own.\<close>

lemma init_item_keeps:
  assumes "init_item k v r = Inr r'"
  shows "(k \<noteq> ''address'' \<longrightarrow> bs_address r' = bs_address r)
    \<and> (k \<noteq> ''name'' \<longrightarrow> bs_name r' = bs_name r)
    \<and> (k \<noteq> ''is_verified'' \<longrightarrow> is_verified r' = is_verified r)
    \<and> (k \<noteq> ''is_fully_verified'' \<longrightarrow> is_fully_verified r' = is_fully_verified r)
    \<and> (k \<noteq> ''is_partially_verified'' \<longrightarrow> is_partially_verified r' = is_partially_verified r)
    \<and> (k \<noteq> ''is_verified_via_sourcify'' \<longrightarrow>
          is_verified_via_sourcify r' = is_verified_via_sourcify r)
    \<and> (k \<noteq> ''sourcify_repo_url'' \<longrightarrow> sourcify_repo_url r' = sourcify_repo_url r)
    \<and> (k \<noteq> ''minimal_proxy_address_hash'' \<longrightarrow>
          minimal_proxy_address_hash r' = minimal_proxy_address_hash r)
    \<and> (k \<noteq> ''compiler_version'' \<longrightarrow> compiler_version r' = compiler_version r)
    \<and> (k \<noteq> ''evm_version'' \<longrightarrow> evm_version r' = evm_version r)
    \<and> (k \<noteq> ''optimizer'' \<longrightarrow> optimizer r' = optimizer r)
    \<and> (k \<noteq> ''verified_at'' \<longrightarrow> verified_at r' = verified_at r)"
  using assms by (auto simp: init_item_def split: if_splits pyval.splits)


lemma init_items_keeps:
  assumes step: "\<And>k v r r'. init_item k v r = Inr r' \<Longrightarrow> k \<noteq> kf \<Longrightarrow> f r' = f r"
    and "kf \<notin> set (map fst kvs)" and "init_items kvs r = Inr r'"
  shows "f r' = f r"
  using assms(2,3)
proof (induction kvs arbitrary: r)
  case Nil
  then show ?case by simp
next
  case (Cons kv kvs)
  obtain k v where kv: "kv = (k, v)"
    by (cases kv)
  have k: "k \<noteq> kf" and rest: "kf \<notin> set (map fst kvs)"
    using Cons.prems(1) kv by auto
  show ?case
  proof (cases "init_item k v r")
    case (Inl e)
    then show ?thesis
      using Cons.prems(2) kv by simp
  next
    case (Inr r1)
    then have "init_items kvs r1 = Inr r'"
      using Cons.prems(2) kv by simp
    then have "f r' = f r1"
      using Cons.IH [OF rest] by simp
    then show ?thesis
      using step [OF Inr k] by simp
  qed
qed

lemma init_keeps:
  assumes step: "\<And>k v r r'. init_item k v r = Inr r' \<Longrightarrow> k \<noteq> kf \<Longrightarrow> f r' = f r"
    and "BlockscoutResponse_init kwargs = Inr r" and "kf \<notin> set (map fst kwargs)"
  shows "f r = f response_defaults"
proof -
  have "init_items kwargs response_defaults = Inr r"
    using assms(2) by (simp add: BlockscoutResponse_init_def split: if_splits)
  then show ?thesis
    using init_items_keeps [of kf f kwargs response_defaults r] step assms(3) by blast
qed

text \<open>A field whose key the reply does not hold has its declared default.\<close>

lemma missing_fields_default:
  assumes "BlockscoutResponse_init kwargs = Inr r"
  shows "(''address'' \<notin> set (map fst kwargs) \<longrightarrow> bs_address r = PStr [])
    \<and> (''name'' \<notin> set (map fst kwargs) \<longrightarrow> bs_name r = PStr [])
    \<and> (''is_verified'' \<notin> set (map fst kwargs) \<longrightarrow> is_verified r = PBool False)
    \<and> (''is_fully_verified'' \<notin> set (map fst kwargs) \<longrightarrow> is_fully_verified r = PBool False)
    \<and> (''is_partially_verified'' \<notin> set (map fst kwargs) \<longrightarrow>
          is_partially_verified r = PBool False)
    \<and> (''is_verified_via_sourcify'' \<notin> set (map fst kwargs) \<longrightarrow>
          is_verified_via_sourcify r = PBool False)
    \<and> (''sourcify_repo_url'' \<notin> set (map fst kwargs) \<longrightarrow> sourcify_repo_url r = PStr [])
    \<and> (''minimal_proxy_address_hash'' \<notin> set (map fst kwargs) \<longrightarrow>
          minimal_proxy_address_hash r = PStr [])
    \<and> (''compiler_version'' \<notin> set (map fst kwargs) \<longrightarrow> compiler_version r = PStr [])
    \<and> (''evm_version'' \<notin> set (map fst kwargs) \<longrightarrow> evm_version r = PStr [])
    \<and> (''optimizer'' \<notin> set (map fst kwargs) \<longrightarrow> optimizer r = PStr [])
    \<and> (''verified_at'' \<notin> set (map fst kwargs) \<longrightarrow> verified_at r = PStr [])"
proof (intro conjI impI)
  assume "''address'' \<notin> set (map fst kwargs)"
  then have "bs_address r = bs_address response_defaults"
    using init_keeps [of "''address''" bs_address kwargs r] init_item_keeps assms by blast
  then show "bs_address r = PStr []" by (simp add: response_defaults_def)
next
  assume "''name'' \<notin> set (map fst kwargs)"
  then have "bs_name r = bs_name response_defaults"
    using init_keeps [of "''name''" bs_name kwargs r] init_item_keeps assms by blast
  then show "bs_name r = PStr []" by (simp add: response_defaults_def)
next
  assume "''is_verified'' \<notin> set (map fst kwargs)"
  then have "is_verified r = is_verified response_defaults"
    using init_keeps [of "''is_verified''" is_verified kwargs r] init_item_keeps assms by blast
  then show "is_verified r = PBool False" by (simp add: response_defaults_def)
next
  assume "''is_fully_verified'' \<notin> set (map fst kwargs)"
  then have "is_fully_verified r = is_fully_verified response_defaults"
    using init_keeps [of "''is_fully_verified''" is_fully_verified kwargs r] init_item_keeps assms
    by blast
  then show "is_fully_verified r = PBool False" by (simp add: response_defaults_def)
next
  assume "''is_partially_verified'' \<notin> set (map fst kwargs)"
  then have "is_partially_verified r = is_partially_verified response_defaults"
    using init_keeps [of "''is_partially_verified''" is_partially_verified kwargs r]
      init_item_keeps assms
    by blast
  then show "is_partially_verified r = PBool False" by (simp add: response_defaults_def)
next
  assume "''is_verified_via_sourcify'' \<notin> set (map fst kwargs)"
  then have "is_verified_via_sourcify r = is_verified_via_sourcify response_defaults"
    using init_keeps [of "''is_verified_via_sourcify''" is_verified_via_sourcify kwargs r]
      init_item_keeps assms
    by blast
  then show "is_verified_via_sourcify r = PBool False" by (simp add: response_defaults_def)
next
  assume "''sourcify_repo_url'' \<notin> set (map fst kwargs)"
  then have "sourcify_repo_url r = sourcify_repo_url response_defaults"
    using init_keeps [of "''sourcify_repo_url''" sourcify_repo_url kwargs r] init_item_keeps assms
    by blast
  then show "sourcify_repo_url r = PStr []" by (simp add: response_defaults_def)
next
  assume "''minimal_proxy_address_hash'' \<notin> set (map fst kwargs)"
  then have "minimal_proxy_address_hash r = minimal_proxy_address_hash response_defaults"
    using init_keeps [of "''minimal_proxy_address_hash''" minimal_proxy_address_hash kwargs r]
      init_item_keeps assms
    by blast
  then show "minimal_proxy_address_hash r = PStr []" by (simp add: response_defaults_def)
next
  assume "''compiler_version'' \<notin> set (map fst kwargs)"
  then have "compiler_version r = compiler_version response_defaults"
    using init_keeps [of "''compiler_version''" compiler_version kwargs r] init_item_keeps assms
    by blast
  then show "compiler_version r = PStr []" by (simp add: response_defaults_def)
next
  assume "''evm_version'' \<notin> set (map fst kwargs)"
  then have "evm_version r = evm_version response_defaults"
    using init_keeps [of "''evm_version''" evm_version kwargs r] init_item_keeps assms by blast
  then show "evm_version r = PStr []" by (simp add: response_defaults_def)
next
  assume "''optimizer'' \<notin> set (map fst kwargs)"
  then have "optimizer r = optimizer response_defaults"
    using init_keeps [of "''optimizer''" optimizer kwargs r] init_item_keeps assms by blast
  then show "optimizer r = PStr []" by (simp add: response_defaults_def)
next
  assume "''verified_at'' \<notin> set (map fst kwargs)"
  then have "verified_at r = verified_at response_defaults"
    using init_keeps [of "''verified_at''" verified_at kwargs r] init_item_keeps assms by blast
  then show "verified_at r = PStr []" by (simp add: response_defaults_def)
qed

section \<open>Facts about the client\<close>

lemma fetch_loop_transient:
  "transient (get i) \<Longrightarrow>
     fetch_loop get url (i # rest) =
       (fst (fetch_loop get url rest), HttpGet url # Sleep 1 # snd (fetch_loop get url rest))"
  by (cases "get i") (auto simp: retry_delay_def split: prod.splits)

lemma fetch_loop_200:
  "get i = Response 200 b \<Longrightarrow> fetch_loop get url (i # rest) = (decode b, [HttpGet url])"
  by simp


text \<open>A run of \<open>k\<close> transient replies costs \<open>k\<close> requests, each followed by a sleep of 1.\<close>

lemma fetch_loop_retries:
  assumes "\<forall>i<k. transient (get (j + i))"
  shows "fetch_loop get url ([j..<j + k] @ rest) =
    (fst (fetch_loop get url rest),
     concat (replicate k [HttpGet url, Sleep 1]) @ snd (fetch_loop get url rest))"
  using assms
proof (induction k arbitrary: j)
  case 0
  then show ?case by simp
next
  case (Suc k)
  have first: "transient (get j)"
    using Suc.prems by force
  have "\<forall>i<k. transient (get (Suc j + i))"
    using Suc.prems by force
  then have IH: "fetch_loop get url ([Suc j..<Suc j + k] @ rest) =
    (fst (fetch_loop get url rest),
     concat (replicate k [HttpGet url, Sleep 1]) @ snd (fetch_loop get url rest))"
    by (rule Suc.IH)
  have "[j..<j + Suc k] @ rest = j # ([Suc j..<Suc j + k] @ rest)"
    by (simp add: upt_rec)
  then show ?case
    using first IH by (simp add: fetch_loop_transient del: fetch_loop.simps)
qed

lemma split_attempts:
  assumes "k < n"
  shows "[0..<n] = [0..<0 + k] @ k # [Suc k..<n]"
proof -
  have "[0..<k + (n - k)] = [0..<k] @ [k..<k + (n - k)]"
    by (rule upt_add_eq_append) simp
  moreover have "[k..<n] = k # [Suc k..<n]"
    using assms by (rule upt_conv_Cons)
  ultimately show ?thesis
    using assms by simp
qed

lemma upt_max_retries: "[0..<max_retries] = [0, 1, 2]"
  by (simp add: max_retries_def upt_rec)

lemma fetch_unfold:
  "fetch_blockscout_data net api_url addr =
     fetch_loop (net (api_url @ addr)) (api_url @ addr) [0..<max_retries]"
  by (simp add: fetch_blockscout_data_def Let_def)

lemma fetch_at_200:
  assumes "k < max_retries" and "\<forall>i<k. transient (net (api_url @ addr) i)"
    and "net (api_url @ addr) k = Response 200 b"
  shows "fetch_blockscout_data net api_url addr =
    (decode b,
     concat (replicate k [HttpGet (api_url @ addr), Sleep 1]) @ [HttpGet (api_url @ addr)])"
proof -
  define url where "url = api_url @ addr"
  define get where "get = net url"
  have "\<forall>i<k. transient (get (0 + i))"
    using assms(2) by (simp add: get_def url_def)
  then have "fetch_loop get url ([0..<0 + k] @ k # [Suc k..<max_retries]) =
      (fst (fetch_loop get url (k # [Suc k..<max_retries])),
       concat (replicate k [HttpGet url, Sleep 1]) @
         snd (fetch_loop get url (k # [Suc k..<max_retries])))"
    by (rule fetch_loop_retries)
  moreover have "get k = Response 200 b"
    using assms(3) by (simp add: get_def url_def)
  ultimately have "fetch_loop get url [0..<max_retries] =
      (decode b, concat (replicate k [HttpGet url, Sleep 1]) @ [HttpGet url])"
    using split_attempts [OF assms(1)] fetch_loop_200 [of get k b url] by simp
  then show ?thesis
    by (simp add: fetch_unfold get_def url_def)
qed








section \<open>Facts about one unit of work\<close>

lemma apis_base:
  "map_of BLOCKSCOUT_APIS ''base'' = Some ''https://base.blockscout.com/api/v2/smart-contracts/''"
  by (simp add: BLOCKSCOUT_APIS_def)

lemma apis_optimism:
  "map_of BLOCKSCOUT_APIS ''optimism'' =
     Some ''https://optimism.blockscout.com/api/v2/smart-contracts/''"
  by (simp add: BLOCKSCOUT_APIS_def)

lemma apis_unknown: "map_of BLOCKSCOUT_APIS ''unknown_chain'' = None"
  by (simp add: BLOCKSCOUT_APIS_def)

lemma apis_nonempty: "map_of BLOCKSCOUT_APIS k = Some api \<Longrightarrow> api \<noteq> []"
  by (auto simp: BLOCKSCOUT_APIS_def split: if_splits)

lemma process_contract_unknown:
  "map_of BLOCKSCOUT_APIS (origin_key c) = None \<Longrightarrow>
     process_contract net c = (c, [Print (Unknown_origin_key (address c) (origin_key c))])"
  by (simp add: process_contract_def)

lemma process_contract_fetch_failed:
  assumes "map_of BLOCKSCOUT_APIS (origin_key c) = Some api"
    and "fst (fetch_blockscout_data net api (address c)) = Inl e"
  shows "process_contract net c =
    (c, snd (fetch_blockscout_data net api (address c)) @ [handler c e])"
  using assms apis_nonempty [OF assms(1)]
  by (cases "fetch_blockscout_data net api (address c)") (simp add: process_contract_def)

text \<open>
  The one exception of the mapper: \<^verbatim>\<open>contract.name.lower()\<close> on a name that is not a
  string, reached when the proxy hash is empty.
\<close>

lemma mapper_raises_iff:
  "snd (map_blockscout_to_open_labels c r) = Some AttributeError \<longleftrightarrow>
     \<not> truthy (minimal_proxy_address_hash r) \<and> (\<forall>s. bs_name r \<noteq> PStr s)"
  by (auto simp: map_blockscout_to_open_labels_def Let_def split: pyval.splits)

lemma mapper_is_proxy_hash:
  "truthy (minimal_proxy_address_hash r) \<Longrightarrow>
     snd (map_blockscout_to_open_labels c r) = None \<and>
     is_proxy_contract (fst (map_blockscout_to_open_labels c r))"
  by (simp add: map_blockscout_to_open_labels_def Let_def)

lemma mapper_is_proxy_name:
  "\<not> truthy (minimal_proxy_address_hash r) \<Longrightarrow> bs_name r = PStr s \<Longrightarrow>
     snd (map_blockscout_to_open_labels c r) = None \<and>
     is_proxy_contract (fst (map_blockscout_to_open_labels c r)) =
       (py_in ''proxy'' (lower s) \<or> py_in ''erc1967'' (lower s))"
  by (simp add: map_blockscout_to_open_labels_def Let_def)

section \<open>Two runs of the specification's scenarios\<close>

text \<open>
  One record on \<^verbatim>\<open>optimism\<close> whose address the explorer does not know: the record
  comes back as it was, and the counters are total 1, processed 1, named 0, proxy 0.
\<close>

lemma scenario_not_found:
  "process_contracts (\<lambda>i url k. Response 404 BadJson) sched clock
     [process_row ''abc123'' ''optimism''] 0 =
   ([process_row ''abc123'' ''optimism''],
    \<lparr> total_contracts = 1, processed_count = 1, contracts_with_name = 0, proxy_contracts = 0,
      elapsed_time = clock 0 \<rparr>)"
proof -
  let ?c = "process_row ''abc123'' ''optimism''"
  let ?net = "\<lambda>(url :: string) (k :: nat). Response 404 BadJson"
  have key: "map_of BLOCKSCOUT_APIS (origin_key ?c) =
      Some ''https://optimism.blockscout.com/api/v2/smart-contracts/''"
    by (simp add: process_row_def apis_optimism)
  have "fst (fetch_blockscout_data ?net
      ''https://optimism.blockscout.com/api/v2/smart-contracts/'' (address ?c)) = Inl ValueError"
    by (simp add: fetch_unfold upt_max_retries)
  then have "fst (process_contract ?net ?c) = ?c"
    using process_contract_fetch_failed [OF key] by simp
  then have "completed (\<lambda>i. ?net) sched [?c] 0 = [?c]"
    by (simp add: completed_def submitted_def slice_to_def py_or_def future_result_def
        as_completed.simps)
  then show ?thesis
    by (simp add: process_contracts_def initial_stats_def collect_step_def process_row_def)
qed

text \<open>
  One record on \<^verbatim>\<open>base\<close>, a reply 200 with the name \<^verbatim>\<open>ERC1967Proxy\<close>, verified,
  no proxy hash: the record is verified, a proxy, and its chain id is
  \<^verbatim>\<open>eip155-8453\<close>.
\<close>

lemma scenario_proxy_by_name:
  "fst (process_contract
     (\<lambda>url k. Response 200
        (Json (PDict [(''name'', PStr ''ERC1967Proxy''), (''is_verified'', PBool True)])))
     (process_row ''0xabc123'' ''base'')) =
   (process_row ''0xabc123'' ''base'')
     \<lparr>name := PStr ''ERC1967Proxy'', verified_status := True, is_proxy_contract := True,
      chain_id := ''eip155-8453''\<rparr>"
proof -
  have "py_in ''proxy'' (lower ''ERC1967Proxy'')"
    by code_simp
  then show ?thesis
    by (simp add: process_contract_def process_row_def apis_base fetch_unfold upt_max_retries
      BlockscoutResponse_init_def init_item_def response_defaults_def
      map_blockscout_to_open_labels_def dict_get_def CHAIN_ID_MAP_def)
qed

section \<open>The size and the content of the output\<close>

text \<open>
  C1. For every input list and every \<open>max_queries \<ge> 0\<close>, the run returns
  \<open>min (max_queries or len(contracts)) (len(contracts))\<close> records: the submitted
  records are the first \<open>max_queries\<close> of the input when \<open>max_queries\<close> is positive
  and the whole input when it is 0, and the output holds the result of every submitted
  record exactly once, in the order \<open>order\<close> of completion, a rearrangement of the
  positions \<open>0, \<dots>, n - 1\<close> of the submitted records.
\<close>

theorem process_contracts_output:
  assumes "0 \<le> max_queries"
  shows "int (length (fst (process_contracts net sched clock contracts max_queries))) =
      min (py_or max_queries (int (length contracts))) (int (length contracts))
    \<and> submitted contracts max_queries =
        (if max_queries = 0 then contracts else take (nat max_queries) contracts)
    \<and> (\<exists>order. mset order = mset [0..<length (submitted contracts max_queries)]
          \<and> fst (process_contracts net sched clock contracts max_queries) =
              map (\<lambda>i. fst (process_contract (net i) (submitted contracts max_queries ! i))) order)"
proof -
  let ?subm = "submitted contracts max_queries"
  let ?order = "as_completed sched 0 [0..<length ?subm]"
  have out: "fst (process_contracts net sched clock contracts max_queries) =
      map (\<lambda>i. fst (process_contract (net i) (?subm ! i))) ?order"
    by (simp add: process_contracts_def fst_collect completed_def Let_def future_result_def)
  have perm: "mset ?order = mset [0..<length ?subm]"
    by (rule mset_as_completed)
  have "length (fst (process_contracts net sched clock contracts max_queries)) = length ?subm"
    by (simp add: out length_as_completed)
  then have len: "int (length (fst (process_contracts net sched clock contracts max_queries))) =
      min (py_or max_queries (int (length contracts))) (int (length contracts))"
    using length_submitted_nonneg [OF assms] by simp
  from len submitted_nonneg [OF assms] out perm show ?thesis
    by blast
qed

theorem process_contracts_output_witness:
  "(0 :: int) \<le> 1 \<and>
   length (fst (process_contracts (\<lambda>i url k. Response 404 BadJson) (\<lambda>k. 0) (\<lambda>k. [])
     [process_row ''abc123'' ''optimism'', process_row ''0xdef456'' ''base''] 1)) = 1 \<and>
   submitted [process_row ''abc123'' ''optimism'', process_row ''0xdef456'' ''base''] 1 =
     [process_row ''abc123'' ''optimism'']"
  using process_contracts_output [of 1 "\<lambda>i url k. Response 404 BadJson" "\<lambda>k. 0" "\<lambda>k. []"
      "[process_row ''abc123'' ''optimism'', process_row ''0xdef456'' ''base'']"]
  by (simp add: py_or_def)

section \<open>Failures of one record\<close>

text \<open>
  C2 (as the code has it). A record whose origin key is not in the registry comes back
  unchanged, with a report and without any request to the network. A record whose
  fetch fails, with \<^verbatim>\<open>ValueError\<close> (not found), \<^verbatim>\<open>Exception\<close> (retries
  exhausted) or any other exception \<open>e\<close>, comes back unchanged. Whatever happens to a
  submitted record, its result is in the output, and the number of processed records
  and the size of the output are the number of submitted records: no record stops the
  batch.
\<close>

theorem failure_passes_record_through:
  "(map_of BLOCKSCOUT_APIS (origin_key c) = None \<longrightarrow>
      process_contract net c = (c, [Print (Unknown_origin_key (address c) (origin_key c))]))
   \<and> (map_of BLOCKSCOUT_APIS (origin_key c) = Some api \<and>
        fst (fetch_blockscout_data net api (address c)) = Inl e \<longrightarrow>
      fst (process_contract net c) = c)
   \<and> (i < length (submitted cs m) \<longrightarrow>
      fst (process_contract (nets i) (submitted cs m ! i)) \<in>
        set (fst (process_contracts nets sched clock cs m)))
   \<and> processed_count (snd (process_contracts nets sched clock cs m)) = int (length (submitted cs m))
   \<and> length (fst (process_contracts nets sched clock cs m)) = length (submitted cs m)"
proof (intro conjI impI)
  assume "map_of BLOCKSCOUT_APIS (origin_key c) = None"
  then show "process_contract net c = (c, [Print (Unknown_origin_key (address c) (origin_key c))])"
    by (rule process_contract_unknown)
next
  assume "map_of BLOCKSCOUT_APIS (origin_key c) = Some api \<and>
        fst (fetch_blockscout_data net api (address c)) = Inl e"
  then show "fst (process_contract net c) = c"
    using process_contract_fetch_failed [of c api net e] by simp
next
  assume "i < length (submitted cs m)"
  then show "fst (process_contract (nets i) (submitted cs m ! i)) \<in>
      set (fst (process_contracts nets sched clock cs m))"
    using future_in_output [of i cs m nets sched clock] by (simp add: future_result_def)
next
  show "processed_count (snd (process_contracts nets sched clock cs m)) =
      int (length (submitted cs m))"
    by (simp add: process_contracts_def processed_collect initial_stats_def length_completed)
next
  show "length (fst (process_contracts nets sched clock cs m)) = length (submitted cs m)"
    by (simp add: process_contracts_def fst_collect length_completed)
qed

theorem failure_passes_record_through_witness:
  "process_contract (\<lambda>url k. Response 404 BadJson) (process_row ''abc123'' ''unknown_chain'') =
     (process_row ''abc123'' ''unknown_chain'',
      [Print (Unknown_origin_key ''0xabc123'' ''unknown_chain'')])
   \<and> chain_id (fst (process_contract (\<lambda>url k. Response 404 BadJson)
        (process_row ''abc123'' ''unknown_chain''))) = ''unknown_chain''
   \<and> fst (process_contract (\<lambda>url k. Response 404 BadJson) (process_row ''abc123'' ''optimism'')) =
       process_row ''abc123'' ''optimism''
   \<and> fst (process_contract (\<lambda>url k. Response 503 BadJson) (process_row ''abc123'' ''optimism'')) =
       process_row ''abc123'' ''optimism''
   \<and> process_row ''abc123'' ''optimism'' \<in>
       set (fst (process_contracts (\<lambda>i url k. Response 404 BadJson) (\<lambda>k. 0) (\<lambda>k. [])
         [process_row ''abc123'' ''optimism''] 0))
   \<and> processed_count (snd (process_contracts (\<lambda>i url k. Response 404 BadJson) (\<lambda>k. 0) (\<lambda>k. [])
         [process_row ''abc123'' ''optimism''] 0)) = 1"
proof -
  let ?u = "process_row ''abc123'' ''unknown_chain''"
  let ?c = "process_row ''abc123'' ''optimism''"
  let ?api = "''https://optimism.blockscout.com/api/v2/smart-contracts/''"
  let ?n404 = "\<lambda>(url :: string) (k :: nat). Response 404 BadJson"
  let ?n503 = "\<lambda>(url :: string) (k :: nat). Response 503 BadJson"
  have hu: "map_of BLOCKSCOUT_APIS (origin_key ?u) = None"
    by (simp add: process_row_def apis_unknown)
  have hc: "map_of BLOCKSCOUT_APIS (origin_key ?c) = Some ?api"
    by (simp add: process_row_def apis_optimism)
  have f404: "fst (fetch_blockscout_data ?n404 ?api (address ?c)) = Inl ValueError"
    by (simp add: fetch_unfold upt_max_retries)
  have f503: "fst (fetch_blockscout_data ?n503 ?api (address ?c)) = Inl Exception"
    by (simp add: fetch_unfold upt_max_retries)
  have subm: "submitted [?c] 0 = [?c]"
    by (simp add: submitted_def slice_to_def py_or_def)
  have a: "process_contract ?n404 ?u =
      (?u, [Print (Unknown_origin_key (address ?u) (origin_key ?u))])"
    using failure_passes_record_through [where c = ?u and net = ?n404] hu by blast
  have b: "fst (process_contract ?n404 ?c) = ?c"
    using failure_passes_record_through
      [where c = ?c and api = ?api and net = ?n404 and e = ValueError] hc f404
    by blast
  have c: "fst (process_contract ?n503 ?c) = ?c"
    using failure_passes_record_through
      [where c = ?c and api = ?api and net = ?n503 and e = Exception] hc f503
    by blast
  have d: "fst (process_contract ?n404 (submitted [?c] 0 ! 0)) \<in>
        set (fst (process_contracts (\<lambda>i. ?n404) (\<lambda>k. 0) (\<lambda>k. []) [?c] 0))
     \<and> processed_count (snd (process_contracts (\<lambda>i. ?n404) (\<lambda>k. 0) (\<lambda>k. []) [?c] 0)) =
        int (length (submitted [?c] 0))"
    using failure_passes_record_through [where i = 0 and cs = "[?c]" and m = 0
        and nets = "\<lambda>i. ?n404" and sched = "\<lambda>k. 0" and clock = "\<lambda>k. []"] subm
    by simp
  have a': "process_contract ?n404 ?u =
      (?u, [Print (Unknown_origin_key ''0xabc123'' ''unknown_chain'')])"
    using a by (simp add: process_row_def)
  have a'': "chain_id (fst (process_contract ?n404 ?u)) = ''unknown_chain''"
    using a by (simp add: process_row_def)
  from a' a'' b c d subm show ?thesis
    by simp
qed

text \<open>
  C2 as stated fails for an exception raised during the mapping. A record on
  \<^verbatim>\<open>base\<close> gets the reply 200 with \<^verbatim>\<open>{"name": null, "is_verified": true}\<close>: the
  mapper assigns the name and the verification status, then raises
  \<^verbatim>\<open>AttributeError\<close> on \<^verbatim>\<open>contract.name.lower()\<close>; the handler prints, and the
  contract that comes back has the name \<^verbatim>\<open>None\<close> and is verified.
\<close>

theorem mapping_failure_counterexample:
  "process_contract
     (\<lambda>url k. Response 200 (Json (PDict [(''name'', PNone), (''is_verified'', PBool True)])))
     (process_row ''abc123'' ''base'') =
   ((process_row ''abc123'' ''base'')\<lparr>name := PNone, verified_status := True\<rparr>,
    [HttpGet ''https://base.blockscout.com/api/v2/smart-contracts/0xabc123'',
     Print (Error_processing ''0xabc123'' AttributeError)])
   \<and> (process_row ''abc123'' ''base'')\<lparr>name := PNone, verified_status := True\<rparr> \<noteq>
       process_row ''abc123'' ''base''"
  by (simp add: process_contract_def process_row_def apis_base fetch_unfold
      upt_max_retries BlockscoutResponse_init_def init_item_def response_defaults_def
      map_blockscout_to_open_labels_def handler_def)

section \<open>The outcomes of a fetch\<close>




section \<open>The mapper: when it raises, and the proxy flag\<close>

text \<open>
  C4 (as the code has it). A field whose key the reply does not hold has its declared
  default in the decoded response; the reply without any field decodes to the
  defaults, on which the mapper does not raise. For every record and every response
  whose name is a string, or whose proxy hash is non-empty, the mapper returns without
  an exception. The result is a function of the record and the response alone: equal
  pairs give equal results, and of the response only the eight fields that the mapper
  reads matter.
\<close>

theorem mapper_returns:
  "(BlockscoutResponse_init kwargs = Inr r0 \<longrightarrow>
      (''address'' \<notin> set (map fst kwargs) \<longrightarrow> bs_address r0 = PStr [])
    \<and> (''name'' \<notin> set (map fst kwargs) \<longrightarrow> bs_name r0 = PStr [])
    \<and> (''is_verified'' \<notin> set (map fst kwargs) \<longrightarrow> is_verified r0 = PBool False)
    \<and> (''is_fully_verified'' \<notin> set (map fst kwargs) \<longrightarrow> is_fully_verified r0 = PBool False)
    \<and> (''is_partially_verified'' \<notin> set (map fst kwargs) \<longrightarrow>
          is_partially_verified r0 = PBool False)
    \<and> (''is_verified_via_sourcify'' \<notin> set (map fst kwargs) \<longrightarrow>
          is_verified_via_sourcify r0 = PBool False)
    \<and> (''sourcify_repo_url'' \<notin> set (map fst kwargs) \<longrightarrow> sourcify_repo_url r0 = PStr [])
    \<and> (''minimal_proxy_address_hash'' \<notin> set (map fst kwargs) \<longrightarrow>
          minimal_proxy_address_hash r0 = PStr [])
    \<and> (''compiler_version'' \<notin> set (map fst kwargs) \<longrightarrow> compiler_version r0 = PStr [])
    \<and> (''evm_version'' \<notin> set (map fst kwargs) \<longrightarrow> evm_version r0 = PStr [])
    \<and> (''optimizer'' \<notin> set (map fst kwargs) \<longrightarrow> optimizer r0 = PStr [])
    \<and> (''verified_at'' \<notin> set (map fst kwargs) \<longrightarrow> verified_at r0 = PStr []))
   \<and> BlockscoutResponse_init [] = Inr response_defaults
   \<and> snd (map_blockscout_to_open_labels c response_defaults) = None
   \<and> (truthy (minimal_proxy_address_hash r) \<or> (\<exists>s. bs_name r = PStr s) \<longrightarrow>
        snd (map_blockscout_to_open_labels c r) = None)
   \<and> (c' = c \<and> r' = r \<longrightarrow>
        map_blockscout_to_open_labels c' r' = map_blockscout_to_open_labels c r)
   \<and> (bs_name r' = bs_name r \<and> is_verified r' = is_verified r \<and>
       is_fully_verified r' = is_fully_verified r \<and>
       is_partially_verified r' = is_partially_verified r \<and>
       is_verified_via_sourcify r' = is_verified_via_sourcify r \<and>
       sourcify_repo_url r' = sourcify_repo_url r \<and>
       minimal_proxy_address_hash r' = minimal_proxy_address_hash r \<and>
       verified_at r' = verified_at r \<longrightarrow>
        map_blockscout_to_open_labels c r' = map_blockscout_to_open_labels c r)"
proof -
  have a: "BlockscoutResponse_init [] = Inr response_defaults"
    by (simp add: BlockscoutResponse_init_def)
  have b: "snd (map_blockscout_to_open_labels c response_defaults) = None"
    by (simp add: map_blockscout_to_open_labels_def Let_def response_defaults_def)
  have n: "truthy (minimal_proxy_address_hash r) \<or> (\<exists>s. bs_name r = PStr s) \<longrightarrow>
        snd (map_blockscout_to_open_labels c r) = None"
    by (auto simp: map_blockscout_to_open_labels_def Let_def split: pyval.splits)
  have d: "c' = c \<and> r' = r \<longrightarrow>
        map_blockscout_to_open_labels c' r' = map_blockscout_to_open_labels c r"
    by simp
  have f: "bs_name r' = bs_name r \<and> is_verified r' = is_verified r \<and>
       is_fully_verified r' = is_fully_verified r \<and>
       is_partially_verified r' = is_partially_verified r \<and>
       is_verified_via_sourcify r' = is_verified_via_sourcify r \<and>
       sourcify_repo_url r' = sourcify_repo_url r \<and>
       minimal_proxy_address_hash r' = minimal_proxy_address_hash r \<and>
       verified_at r' = verified_at r \<longrightarrow>
        map_blockscout_to_open_labels c r' = map_blockscout_to_open_labels c r"
    by (auto simp: map_blockscout_to_open_labels_def Let_def split: pyval.splits)
  show ?thesis
    using missing_fields_default [of kwargs r0] a b n d f
    by (intro conjI impI) blast+
qed

theorem mapper_returns_witness:
  "BlockscoutResponse_init [(''name'', PStr ''Token'')] =
     Inr (response_defaults\<lparr>bs_name := PStr ''Token''\<rparr>)
   \<and> is_verified (response_defaults\<lparr>bs_name := PStr ''Token''\<rparr>) = PBool False
   \<and> minimal_proxy_address_hash (response_defaults\<lparr>bs_name := PStr ''Token''\<rparr>) = PStr []
   \<and> snd (map_blockscout_to_open_labels (process_row ''abc123'' ''base'')
       (response_defaults\<lparr>bs_name := PStr ''Token''\<rparr>)) = None
   \<and> map_blockscout_to_open_labels (process_row ''abc123'' ''base'')
       (response_defaults\<lparr>bs_name := PStr ''Token'', compiler_version := PStr ''0.8.19''\<rparr>) =
     map_blockscout_to_open_labels (process_row ''abc123'' ''base'')
       (response_defaults\<lparr>bs_name := PStr ''Token''\<rparr>)"
proof -
  let ?r = "response_defaults\<lparr>bs_name := PStr ''Token''\<rparr>"
  let ?r' = "response_defaults\<lparr>bs_name := PStr ''Token'', compiler_version := PStr ''0.8.19''\<rparr>"
  let ?c = "process_row ''abc123'' ''base''"
  have i: "BlockscoutResponse_init [(''name'', PStr ''Token'')] = Inr ?r"
    by (simp add: BlockscoutResponse_init_def init_item_def)
  have k1: "''is_verified'' \<notin> set (map fst [(''name'', PStr ''Token'')])"
    and k2: "''minimal_proxy_address_hash'' \<notin> set (map fst [(''name'', PStr ''Token'')])"
    by simp_all
  have s: "\<exists>s. bs_name ?r = PStr s"
    by simp
  have same: "bs_name ?r' = bs_name ?r \<and> is_verified ?r' = is_verified ?r \<and>
       is_fully_verified ?r' = is_fully_verified ?r \<and>
       is_partially_verified ?r' = is_partially_verified ?r \<and>
       is_verified_via_sourcify ?r' = is_verified_via_sourcify ?r \<and>
       sourcify_repo_url ?r' = sourcify_repo_url ?r \<and>
       minimal_proxy_address_hash ?r' = minimal_proxy_address_hash ?r \<and>
       verified_at ?r' = verified_at ?r"
    by simp
  note T = mapper_returns [where kwargs = "[(''name'', PStr ''Token'')]" and ?r0.0 = ?r
      and c = ?c and r = ?r and r' = ?r' and c' = ?c]
  have "is_verified ?r = PBool False"
    using T i k1 by blast
  moreover have "minimal_proxy_address_hash ?r = PStr []"
    using T i k2 by blast
  moreover have "snd (map_blockscout_to_open_labels ?c ?r) = None"
    using T s by blast
  moreover have "map_blockscout_to_open_labels ?c ?r' = map_blockscout_to_open_labels ?c ?r"
    using T same by blast
  ultimately show ?thesis
    using i by blast
qed

text \<open>
  C4 as stated fails: the reply \<^verbatim>\<open>{"name": null}\<close> decodes to a response whose
  name is \<^verbatim>\<open>None\<close>, and on it the mapper raises \<^verbatim>\<open>AttributeError\<close>.
\<close>

theorem mapper_null_name_counterexample:
  "BlockscoutResponse_init [(''name'', PNone)] = Inr (response_defaults\<lparr>bs_name := PNone\<rparr>)
   \<and> snd (map_blockscout_to_open_labels (process_row ''abc123'' ''base'')
        (response_defaults\<lparr>bs_name := PNone\<rparr>)) = Some AttributeError"
  by (simp add: BlockscoutResponse_init_def init_item_def map_blockscout_to_open_labels_def
      response_defaults_def)

text \<open>
  C5. When the proxy hash of the response is non-empty the mapper returns and the
  record is a proxy, whatever the name. When the hash is empty and the name is the
  string \<open>s\<close>, the mapper returns and the record is a proxy exactly when \<open>s\<close> in lower
  case contains \<^verbatim>\<open>proxy\<close> or \<^verbatim>\<open>erc1967\<close>.
\<close>

theorem proxy_detection:
  "(truthy (minimal_proxy_address_hash r) \<longrightarrow>
      snd (map_blockscout_to_open_labels c r) = None \<and>
      is_proxy_contract (fst (map_blockscout_to_open_labels c r)))
   \<and> (\<not> truthy (minimal_proxy_address_hash r) \<and> bs_name r = PStr s \<longrightarrow>
      snd (map_blockscout_to_open_labels c r) = None \<and>
      is_proxy_contract (fst (map_blockscout_to_open_labels c r)) =
        ((\<exists>p q. lower s = p @ ''proxy'' @ q) \<or> (\<exists>p q. lower s = p @ ''erc1967'' @ q)))"
  using mapper_is_proxy_hash [of r c] mapper_is_proxy_name [of r s c]
  by (simp add: py_in_iff)

theorem proxy_detection_witness:
  "is_proxy_contract (fst (map_blockscout_to_open_labels (process_row ''abc123'' ''base'')
      (response_defaults\<lparr>bs_name := PStr ''Token'', minimal_proxy_address_hash := PStr ''0xbeef''\<rparr>)))
   \<and> is_proxy_contract (fst (map_blockscout_to_open_labels (process_row ''abc123'' ''base'')
      (response_defaults\<lparr>bs_name := PStr ''MyERC1967Proxy''\<rparr>)))
   \<and> \<not> is_proxy_contract (fst (map_blockscout_to_open_labels (process_row ''abc123'' ''base'')
      (response_defaults\<lparr>bs_name := PStr ''Token''\<rparr>)))"
proof -
  let ?c = "process_row ''abc123'' ''base''"
  let ?r1 = "response_defaults\<lparr>bs_name := PStr ''Token'',
    minimal_proxy_address_hash := PStr ''0xbeef''\<rparr>"
  let ?r2 = "response_defaults\<lparr>bs_name := PStr ''MyERC1967Proxy''\<rparr>"
  let ?r3 = "response_defaults\<lparr>bs_name := PStr ''Token''\<rparr>"
  have "py_in ''proxy'' (lower ''MyERC1967Proxy'')"
    by code_simp
  then have yes: "\<exists>p q. lower ''MyERC1967Proxy'' = p @ ''proxy'' @ q"
    unfolding py_in_iff .
  have "\<not> py_in ''proxy'' (lower ''Token'')" and "\<not> py_in ''erc1967'' (lower ''Token'')"
    by code_simp+
  then have no: "\<not> (\<exists>p q. lower ''Token'' = p @ ''proxy'' @ q)"
      "\<not> (\<exists>p q. lower ''Token'' = p @ ''erc1967'' @ q)"
    unfolding py_in_iff .
  have h1: "truthy (minimal_proxy_address_hash ?r1)"
    by simp
  have h2: "\<not> truthy (minimal_proxy_address_hash ?r2) \<and> bs_name ?r2 = PStr ''MyERC1967Proxy''"
    by (simp add: response_defaults_def)
  have h3: "\<not> truthy (minimal_proxy_address_hash ?r3) \<and> bs_name ?r3 = PStr ''Token''"
    by (simp add: response_defaults_def)
  have "is_proxy_contract (fst (map_blockscout_to_open_labels ?c ?r1))"
    using proxy_detection [of ?r1 ?c "''Token''"] h1 by blast
  moreover have "is_proxy_contract (fst (map_blockscout_to_open_labels ?c ?r2))"
    using proxy_detection [of ?r2 ?c "''MyERC1967Proxy''"] h2 yes by blast
  moreover have "\<not> is_proxy_contract (fst (map_blockscout_to_open_labels ?c ?r3))"
    using proxy_detection [of ?r3 ?c "''Token''"] h3 no by blast
  ultimately show ?thesis
    by blast
qed

section \<open>A body that does not decode\<close>

text \<open>
  C6 (as the code has it). A reply 200 whose body does not decode ends the fetch at
  once: after \<open>k < 3\<close> replies with a status other than 200 and 404, such a reply is
  the last request made, no sleep follows it, and the function raises the decoding
  error, not the exception of the exhausted retries.
\<close>

theorem decode_failure_not_retried:
  "k < max_retries \<and> (\<forall>i<k. transient (net (api_url @ addr) i)) \<and>
     net (api_url @ addr) k = Response 200 BadJson \<longrightarrow>
       fetch_blockscout_data net api_url addr =
         (Inl JSONDecodeError,
          concat (replicate k [HttpGet (api_url @ addr), Sleep 1]) @ [HttpGet (api_url @ addr)])"
  using fetch_at_200 [of k net api_url addr BadJson] by simp

theorem decode_failure_not_retried_witness:
  "fetch_blockscout_data (\<lambda>url i. if i = 0 then Response 503 BadJson else Response 200 BadJson)
      ''api/'' ''0xabc123'' =
     (Inl JSONDecodeError, [HttpGet ''api/0xabc123'', Sleep 1, HttpGet ''api/0xabc123''])"
  using decode_failure_not_retried [of 1
      "\<lambda>url i. if i = 0 then Response 503 BadJson else Response 200 BadJson"
      "''api/''" "''0xabc123''"]
  by (simp add: max_retries_def)

text \<open>
  C6 as stated fails: when every attempt would get a reply 200 with a body that does
  not decode, the function makes one request and raises the decoding error; it does not
  make three requests and does not raise the exception of the exhausted retries.
\<close>

theorem decode_failure_counterexample:
  "fetch_blockscout_data (\<lambda>url i. Response 200 BadJson) ''api/'' ''0xabc123'' =
     (Inl JSONDecodeError, [HttpGet ''api/0xabc123''])
   \<and> fst (fetch_blockscout_data (\<lambda>url i. Response 200 BadJson) ''api/'' ''0xabc123'') \<noteq>
       Inl Exception"
  by (simp add: fetch_unfold upt_max_retries)

section \<open>The counters\<close>

text \<open>
  C7. After a run the number of processed records is the length of the output, and
  the numbers of named records and of proxies are at most the number of processed
  records. During the run, with \<open>stats_after \<dots> j\<close> the statistics after \<open>j\<close>
  completions (after all of them, the statistics returned): no counter decreases from
  \<open>j\<close> completions to \<open>k \<ge> j\<close> completions, and each completion adds exactly one to
  the number of processed records.
\<close>

theorem stats_invariant:
  "processed_count (snd (process_contracts net sched clock contracts max_queries)) =
      int (length (fst (process_contracts net sched clock contracts max_queries)))
   \<and> contracts_with_name (snd (process_contracts net sched clock contracts max_queries)) \<le>
      processed_count (snd (process_contracts net sched clock contracts max_queries))
   \<and> proxy_contracts (snd (process_contracts net sched clock contracts max_queries)) \<le>
      processed_count (snd (process_contracts net sched clock contracts max_queries))
   \<and> stats_after net sched clock contracts max_queries
        (length (completed net sched contracts max_queries)) =
      snd (process_contracts net sched clock contracts max_queries)
   \<and> (j \<le> k \<longrightarrow>
        processed_count (stats_after net sched clock contracts max_queries j) \<le>
          processed_count (stats_after net sched clock contracts max_queries k)
      \<and> contracts_with_name (stats_after net sched clock contracts max_queries j) \<le>
          contracts_with_name (stats_after net sched clock contracts max_queries k)
      \<and> proxy_contracts (stats_after net sched clock contracts max_queries j) \<le>
          proxy_contracts (stats_after net sched clock contracts max_queries k))
   \<and> (j < length (completed net sched contracts max_queries) \<longrightarrow>
        processed_count (stats_after net sched clock contracts max_queries (Suc j)) =
          processed_count (stats_after net sched clock contracts max_queries j) + 1)"
proof -
  let ?done = "completed net sched contracts max_queries"
  let ?run = "process_contracts net sched clock contracts max_queries"
  have a: "processed_count (snd ?run) = int (length (fst ?run))"
    by (simp add: process_contracts_def processed_collect fst_collect initial_stats_def)
  have "length (filter (\<lambda>c. truthy (name c)) ?done) \<le> length ?done"
    by (rule length_filter_le)
  then have b: "contracts_with_name (snd ?run) \<le> processed_count (snd ?run)"
    by (simp add: process_contracts_def processed_collect named_collect initial_stats_def)
  have "length (filter is_proxy_contract ?done) \<le> length ?done"
    by (rule length_filter_le)
  then have c: "proxy_contracts (snd ?run) \<le> processed_count (snd ?run)"
    by (simp add: process_contracts_def processed_collect proxy_collect initial_stats_def)
  have d: "stats_after net sched clock contracts max_queries (length ?done) = snd ?run"
    by (simp add: stats_after_def process_contracts_def)
  have e: "processed_count (stats_after net sched clock contracts max_queries j) \<le>
          processed_count (stats_after net sched clock contracts max_queries k)
      \<and> contracts_with_name (stats_after net sched clock contracts max_queries j) \<le>
          contracts_with_name (stats_after net sched clock contracts max_queries k)
      \<and> proxy_contracts (stats_after net sched clock contracts max_queries j) \<le>
          proxy_contracts (stats_after net sched clock contracts max_queries k)" if "j \<le> k"
    using that filter_take_mono [OF that, of "\<lambda>c. truthy (name c)" ?done]
      filter_take_mono [OF that, of is_proxy_contract ?done]
    by (simp add: stats_after_def processed_collect named_collect proxy_collect)
  have f: "processed_count (stats_after net sched clock contracts max_queries (Suc j)) =
          processed_count (stats_after net sched clock contracts max_queries j) + 1"
    if "j < length ?done"
    using that by (simp add: stats_after_def processed_collect min_def)
  from a b c d e f show ?thesis
    by blast
qed

theorem stats_invariant_witness:
  "(1 :: nat) \<le> 2
   \<and> 1 < length (completed (\<lambda>i url k. Response 404 BadJson) (\<lambda>k. 0)
        [process_row ''abc123'' ''optimism'', process_row ''0xdef456'' ''base''] 0)
   \<and> processed_count (stats_after (\<lambda>i url k. Response 404 BadJson) (\<lambda>k. 0) (\<lambda>k. [])
        [process_row ''abc123'' ''optimism'', process_row ''0xdef456'' ''base''] 0 1) \<le>
      processed_count (stats_after (\<lambda>i url k. Response 404 BadJson) (\<lambda>k. 0) (\<lambda>k. [])
        [process_row ''abc123'' ''optimism'', process_row ''0xdef456'' ''base''] 0 2)
   \<and> processed_count (stats_after (\<lambda>i url k. Response 404 BadJson) (\<lambda>k. 0) (\<lambda>k. [])
        [process_row ''abc123'' ''optimism'', process_row ''0xdef456'' ''base''] 0 (Suc 1)) =
      processed_count (stats_after (\<lambda>i url k. Response 404 BadJson) (\<lambda>k. 0) (\<lambda>k. [])
        [process_row ''abc123'' ''optimism'', process_row ''0xdef456'' ''base''] 0 1) + 1
   \<and> processed_count (snd (process_contracts (\<lambda>i url k. Response 404 BadJson) (\<lambda>k. 0) (\<lambda>k. [])
        [process_row ''abc123'' ''optimism'', process_row ''0xdef456'' ''base''] 0)) =
      int (length (fst (process_contracts (\<lambda>i url k. Response 404 BadJson) (\<lambda>k. 0) (\<lambda>k. [])
        [process_row ''abc123'' ''optimism'', process_row ''0xdef456'' ''base''] 0)))"
proof -
  have len: "length (completed (\<lambda>i url k. Response 404 BadJson) (\<lambda>k. 0)
        [process_row ''abc123'' ''optimism'', process_row ''0xdef456'' ''base''] 0) = 2"
    by (simp add: length_completed submitted_def slice_to_def py_or_def)
  have h1: "(1 :: nat) \<le> 2"
    by simp
  have h2: "1 < length (completed (\<lambda>i url k. Response 404 BadJson) (\<lambda>k. 0)
        [process_row ''abc123'' ''optimism'', process_row ''0xdef456'' ''base''] 0)"
    using len by simp
  show ?thesis
    using stats_invariant [of "\<lambda>i url k. Response 404 BadJson" "\<lambda>k. 0" "\<lambda>k. []"
      "[process_row ''abc123'' ''optimism'', process_row ''0xdef456'' ''base'']" 0 1 2] h1 h2
    by blast
qed

section \<open>The total counter\<close>

text \<open>
  C8 (as the code has it). The statistics are created with
  \<^verbatim>\<open>total_contracts=len(contracts)\<close> before the list is sliced, and the loop never
  assigns the field again: after every run the total counter is the length of the
  whole input list, whatever \<open>max_queries\<close> is.
\<close>

theorem total_contracts_is_input_length:
  "total_contracts (snd (process_contracts net sched clock contracts max_queries)) =
     int (length contracts)"
  by (simp add: process_contracts_def total_collect initial_stats_def)

text \<open>
  C8 as stated fails: with two records and \<open>max_queries = 1\<close> one record is submitted
  and the total counter is 2.
\<close>

theorem total_contracts_counterexample:
  "length (submitted [process_row ''abc123'' ''optimism'', process_row ''0xdef456'' ''base''] 1) = 1
   \<and> total_contracts (snd (process_contracts (\<lambda>i url k. Response 404 BadJson) (\<lambda>k. 0) (\<lambda>k. [])
        [process_row ''abc123'' ''optimism'', process_row ''0xdef456'' ''base''] 1)) = 2"
  by (simp add: process_contracts_def total_collect initial_stats_def submitted_def
      slice_to_def py_or_def)

section \<open>A negative bound\<close>

text \<open>
  C10. With \<open>max_queries < 0\<close> the expression \<^verbatim>\<open>max_queries or len(contracts)\<close> is
  \<open>max_queries\<close>, and the slice \<^verbatim>\<open>contracts[:max_queries]\<close> is the list without
  its last \<open>|max_queries|\<close> elements (empty when there are no more than that): the
  run returns \<open>max 0 (len - |max_queries|)\<close> records.
\<close>

theorem negative_max_queries:
  assumes "max_queries < 0"
  shows "submitted contracts max_queries = take (length contracts - nat (- max_queries)) contracts
    \<and> int (length (fst (process_contracts net sched clock contracts max_queries))) =
        max 0 (int (length contracts) - \<bar>max_queries\<bar>)"
proof -
  have "nat (int (length contracts) + max_queries) = length contracts - nat (- max_queries)"
    using assms by linarith
  then have s: "submitted contracts max_queries =
      take (length contracts - nat (- max_queries)) contracts"
    using assms by (simp add: submitted_def slice_to_def py_or_def)
  have "length (fst (process_contracts net sched clock contracts max_queries)) =
      length (submitted contracts max_queries)"
    by (simp add: process_contracts_def fst_collect length_completed)
  then show ?thesis
    using s assms by auto
qed

theorem negative_max_queries_witness:
  "(-1 :: int) < 0 \<and>
   submitted [process_row ''abc123'' ''optimism'', process_row ''0xdef456'' ''base''] (-1) =
     [process_row ''abc123'' ''optimism''] \<and>
   length (fst (process_contracts (\<lambda>i url k. Response 404 BadJson) (\<lambda>k. 0) (\<lambda>k. [])
      [process_row ''abc123'' ''optimism'', process_row ''0xdef456'' ''base''] (-1))) = 1"
  using negative_max_queries [of "-1"
      "[process_row ''abc123'' ''optimism'', process_row ''0xdef456'' ''base'']"
      "\<lambda>i url k. Response 404 BadJson" "\<lambda>k. 0" "\<lambda>k. []"]
  by simp

end
